theory Spec2Isabelle
  imports Complex_Main
begin

section \<open>Data model of \<^verbatim>\<open>mesos_client_service.go\<close>\<close>

text \<open>
  The three structs that the JSON decoder fills. A Go \<^verbatim>\<open>string\<close> is a byte
  sequence and \<^verbatim>\<open>==\<close> on strings compares bytes, so \<^typ>\<open>string\<close> with HOL
  equality is the same comparison. The two \<^verbatim>\<open>float64\<close> fields are only ever
  compared with \<^verbatim>\<open>0.0\<close>; a decoded JSON number is finite, and a finite float is
  \<^verbatim>\<open>== 0.0\<close> exactly when its value is zero, so the fields are reals here. A JSON
  document without \<^verbatim>\<open>slaves\<close> (or with \<^verbatim>\<open>null\<close>) leaves the slice nil, over
  which \<^verbatim>\<open>range\<close> iterates zero times: the empty list.
\<close>

record MesosSlaveAttributes =
  Host :: string
  InstanceType :: string
  PublicIP :: string
  Rack :: string
  PrivateIP :: string

record MesosSlave =
  IsActive :: bool
  MesosPid :: string
  Attributes :: MesosSlaveAttributes
  RegisteredTime :: real

record MesosState =
  ElectedTime :: real
  Leader :: string
  Pid :: string
  Slaves :: "MesosSlave list"

section \<open>Results, panics and process exit\<close>

text \<open>
  A Go function of this file either returns, panics (which, unrecovered, kills the whole
  process from whatever goroutine it happens in), or calls \<^verbatim>\<open>os.Exit\<close>.
\<close>

datatype panic =
    RequestConstructionError  \<comment> \<open>\<^verbatim>\<open>panic(err)\<close> after \<^verbatim>\<open>http.NewRequest\<close>, line 88\<close>
  | TransportError            \<comment> \<open>\<^verbatim>\<open>panic(err)\<close> after \<^verbatim>\<open>client.Do\<close>, line 93\<close>
  | IndexOutOfRange           \<comment> \<open>\<^verbatim>\<open>strings.Split(...)[1]\<close> on a one-element slice, line 119\<close>
  | NilDereference            \<comment> \<open>\<^verbatim>\<open>stateData.Slaves\<close> on a nil pointer, line 128\<close>
  | SendOnClosedChannel
  | CloseOfClosedChannel

datatype 'a outcome = Returned 'a | Panicked panic | Exited int

datatype go_error = DecodeError

text \<open>The pair \<^verbatim>\<open>(*MesosState, error)\<close>; \<open>None\<close> is \<^verbatim>\<open>nil\<close> in both places.\<close>

type_synonym query_result = "MesosState option \<times> go_error option"

section \<open>The HTTP client as an environment\<close>

text \<open>
  What leaves the process is recorded as a list of requests handed to \<^verbatim>\<open>client.Do\<close>.
  What comes back is one of three things: \<^verbatim>\<open>client.Do\<close> returned an error, the body
  did not decode into a \<^verbatim>\<open>MesosState\<close>, or it did. Whether \<^verbatim>\<open>http.NewRequest\<close>
  rejects a URL is a function of the URL alone; it belongs to the Go library and is a
  parameter \<open>requestErr\<close> of the model. Console output is not modelled.
\<close>

record request =
  verb :: string
  target :: string
  payload :: string

datatype http_reply = TransportFailure | Undecodable | Decoded MesosState

definition newRequest :: "(string \<Rightarrow> bool) \<Rightarrow> string \<Rightarrow> request option" where
  "newRequest requestErr url =
     (if requestErr url then None
      else Some \<lparr>verb = ''POST'', target = url, payload = ''''\<rparr>)"

text \<open>Lines 90 to 102: from the return of \<^verbatim>\<open>client.Do\<close> to the return of the function.\<close>

definition readReply :: "http_reply \<Rightarrow> query_result outcome" where
  "readReply reply =
     (case reply of
        TransportFailure \<Rightarrow> Panicked TransportError
      | Undecodable \<Rightarrow> Returned (None, Some DecodeError)
      | Decoded mesosState \<Rightarrow> Returned (Some mesosState, None))"

definition queryMesosState ::
  "(string \<Rightarrow> bool) \<Rightarrow> string \<Rightarrow> http_reply \<Rightarrow> query_result outcome \<times> request list" where
  "queryMesosState requestErr url reply =
     (case newRequest requestErr url of
        None \<Rightarrow> (Panicked RequestConstructionError, [])
      | Some httpReq \<Rightarrow> (readReply reply, [httpReq]))"

section \<open>One polling tick: isSlaveRegistered\<close>

text \<open>\<^verbatim>\<open>fmt.Sprintf("http://%s/%s", hostPort, endpoint)\<close> and \<^verbatim>\<open>fmt.Sprintf("%s:%s", mip, mport)\<close>.\<close>

definition sprintf_url :: "string \<Rightarrow> string \<Rightarrow> string" where
  "sprintf_url hostPort endpoint = ''http://'' @ hostPort @ ''/'' @ endpoint"

definition sprintf_hostPort :: "string \<Rightarrow> string \<Rightarrow> string" where
  "sprintf_hostPort mip mport = mip @ '':'' @ mport"

text \<open>
  \<^verbatim>\<open>strings.Split(s, sep)\<close> for a one-byte separator: the pieces between the
  separators, one more piece than there are separators, so a string without the
  separator gives the one-element slice holding the string itself.
\<close>

fun strings_Split :: "char \<Rightarrow> string \<Rightarrow> string list" where
  "strings_Split sep [] = [[]]"
| "strings_Split sep (c # cs) =
     (if c = sep then [] # strings_Split sep cs
      else (case strings_Split sep cs of
              [] \<Rightarrow> [[c]]
            | piece # pieces \<Rightarrow> (c # piece) # pieces))"

text \<open>Lines 128 to 133: the loop over the slaves with its early return.\<close>

fun scanSlaves :: "MesosSlave list \<Rightarrow> string \<Rightarrow> bool" where
  "scanSlaves [] agentIP = False"
| "scanSlaves (slave # rest) agentIP =
     (if PrivateIP (Attributes slave) = agentIP then True else scanSlaves rest agentIP)"

text \<open>The same lines, reached through the pointer \<^verbatim>\<open>stateData\<close>, which may be nil.\<close>

definition checkSlaves :: "MesosState option \<Rightarrow> string \<Rightarrow> bool outcome" where
  "checkSlaves stateData agentIP =
     (case stateData of
        None \<Rightarrow> Panicked NilDereference
      | Some st \<Rightarrow> Returned (scanSlaves (Slaves st) agentIP))"

text \<open>
  Lines 109 to 121, what follows the first query: the error check with its
  \<^verbatim>\<open>os.Exit(1)\<close>, the test for a non-leader, and either the URL of the second query
  or the result of the tick.
\<close>

datatype resolution = Redirect string | Resolved "bool outcome"

definition afterFirstQuery :: "query_result \<Rightarrow> string \<Rightarrow> string \<Rightarrow> resolution" where
  "afterFirstQuery r mesosApiEndpoint agentIP =
     (case r of (stateData, err) \<Rightarrow>
        if err \<noteq> None then Resolved (Exited 1)
        else (case stateData of
                None \<Rightarrow> Resolved (Panicked NilDereference)
              | Some st \<Rightarrow>
                  if ElectedTime st = 0 \<and> Leader st \<noteq> Pid st then
                    (case strings_Split CHR ''@'' (Leader st) of
                       _ # newHostPort # _ \<Rightarrow> Redirect (sprintf_url newHostPort mesosApiEndpoint)
                     | _ \<Rightarrow> Resolved (Panicked IndexOutOfRange))
                  else Resolved (checkSlaves (Some st) agentIP)))"

text \<open>
  Line 122 assigns both results of the second query and nothing reads \<^verbatim>\<open>err\<close>
  afterwards: the scan runs on whatever pointer came back.
\<close>

definition afterSecondQuery :: "query_result \<Rightarrow> string \<Rightarrow> bool outcome" where
  "afterSecondQuery r agentIP = checkSlaves (fst r) agentIP"

text \<open>
  The whole function, with the replies to its (at most two) queries as arguments; the
  second component is the list of requests it handed to the HTTP client, in order.
\<close>

definition isSlaveRegistered ::
  "(string \<Rightarrow> bool) \<Rightarrow> string \<Rightarrow> string \<Rightarrow> string \<Rightarrow> http_reply \<Rightarrow> http_reply
     \<Rightarrow> bool outcome \<times> request list" where
  "isSlaveRegistered requestErr mesosHostPort mesosApiEndpoint agentIP reply1 reply2 =
     (case queryMesosState requestErr (sprintf_url mesosHostPort mesosApiEndpoint) reply1 of
        (Panicked p, reqs1) \<Rightarrow> (Panicked p, reqs1)
      | (Exited n, reqs1) \<Rightarrow> (Exited n, reqs1)
      | (Returned r1, reqs1) \<Rightarrow>
          (case afterFirstQuery r1 mesosApiEndpoint agentIP of
             Resolved res \<Rightarrow> (res, reqs1)
           | Redirect url \<Rightarrow>
               (case queryMesosState requestErr url reply2 of
                  (Panicked p, reqs2) \<Rightarrow> (Panicked p, reqs1 @ reqs2)
                | (Exited n, reqs2) \<Rightarrow> (Exited n, reqs1 @ reqs2)
                | (Returned r2, reqs2) \<Rightarrow> (afterSecondQuery r2 agentIP, reqs1 @ reqs2))))"

section \<open>The two goroutines of waitForMesosSlaveRegistration\<close>

text \<open>
  \<^verbatim>\<open>waitForMesosSlaveRegistration\<close> makes two channels of capacity 1, starts
  \<^verbatim>\<open>asyncQueryRegistration\<close> as a goroutine and races the result channel against a
  90 second timer. The two goroutines share nothing but the channels, so a state of the
  program is a program point for each goroutine, the contents of the two channels, a
  clock, and whether the process is still alive. The clock counts seconds; a timer made
  by \<^verbatim>\<open>time.After(d)\<close> can fire at any time from \<open>d\<close> after its creation and
  never before, and nothing bounds from above how long a statement or a request takes.

  A run is a list of events, chosen by the scheduler and by the network. An event that
  is not possible in a state (a goroutine blocked on a channel, a timer that is not due,
  anything in a dead process) gives \<open>None\<close>. A state in which the function has
  returned is a state like any other: the loop goes on for as long as the process does.
\<close>

record args =
  mip :: string
  mport :: string
  mapi :: string
  sip :: string

record chan =
  buf :: "bool list"
  isClosed :: bool

definition chanCap :: nat where
  "chanCap = 1"

text \<open>The program points of the supervisor (lines 180 to 188).\<close>

datatype sup_pc =
    SupEnter            \<comment> \<open>about to evaluate the \<^verbatim>\<open>select\<close> of line 180\<close>
  | SupWaiting nat      \<comment> \<open>parked in the \<^verbatim>\<open>select\<close>; the timer is due at the given time\<close>
  | SupSignal bool      \<comment> \<open>\<^verbatim>\<open>select\<close> decided, \<^verbatim>\<open>isRegistered\<close> set; about to run line 186\<close>
  | SupClose bool       \<comment> \<open>about to run line 187\<close>
  | SupReturned bool    \<comment> \<open>line 188 has returned the given value\<close>

text \<open>The program points of the polling goroutine (lines 141 to 165).\<close>

datatype loop_pc =
    LoopQuery              \<comment> \<open>top of the \<^verbatim>\<open>for\<close>: about to make the first request of a tick\<close>
  | LoopInFlight           \<comment> \<open>inside \<^verbatim>\<open>client.Do\<close> of the first request\<close>
  | LoopRedirect string    \<comment> \<open>about to make the second request, to the given URL\<close>
  | LoopRedirectInFlight   \<comment> \<open>inside \<^verbatim>\<open>client.Do\<close> of the second request\<close>
  | LoopEmit               \<comment> \<open>\<^verbatim>\<open>isRegistered == true\<close>: about to run line 146\<close>
  | LoopEnter              \<comment> \<open>about to evaluate the \<^verbatim>\<open>select\<close> of line 148\<close>
  | LoopWaiting nat        \<comment> \<open>parked in the \<^verbatim>\<open>select\<close>; the timer is due at the given time\<close>
  | LoopStop               \<comment> \<open>took \<^verbatim>\<open>case <-done\<close>: about to run line 152\<close>
  | LoopExited             \<comment> \<open>left the \<^verbatim>\<open>for\<close>; the goroutine is over\<close>

datatype process = Running | Crashed panic | ExitedWith int

text \<open>What the program has done so far, each entry with the time it happened at.\<close>

datatype action =
    Issued request     \<comment> \<open>a request was handed to \<^verbatim>\<open>client.Do\<close>\<close>
  | SentOut bool       \<comment> \<open>\<^verbatim>\<open>out <- isRegistered\<close> completed\<close>
  | ClosedOut          \<comment> \<open>\<^verbatim>\<open>close(out)\<close>\<close>
  | ReceivedOut bool   \<comment> \<open>the supervisor's \<^verbatim>\<open>select\<close> took \<^verbatim>\<open>case isRegistered = <-stateChan\<close>\<close>
  | TimedOut           \<comment> \<open>the supervisor's \<^verbatim>\<open>select\<close> took the 90 second case\<close>
  | SentDone           \<comment> \<open>\<^verbatim>\<open>doneChan <- true\<close> completed\<close>
  | ClosedDone         \<comment> \<open>\<^verbatim>\<open>close(doneChan)\<close>\<close>
  | ReceivedDone       \<comment> \<open>the loop's \<^verbatim>\<open>select\<close> took \<^verbatim>\<open>case <-done\<close>\<close>
  | IntervalElapsed    \<comment> \<open>the loop's \<^verbatim>\<open>select\<close> took the 15 second case\<close>

record system =
  now :: nat
  process :: process
  supervisor :: sup_pc
  poller :: loop_pc
  stateChan :: chan
  doneChan :: chan
  history :: "(nat \<times> action) list"

datatype event =
    Advance nat          \<comment> \<open>time passes\<close>
  | SupStep              \<comment> \<open>the supervisor runs its next statement\<close>
  | SupTimer             \<comment> \<open>the 90 second timer fires while the supervisor is parked\<close>
  | LoopStep             \<comment> \<open>the loop runs its next statement\<close>
  | LoopReply http_reply \<comment> \<open>the request in flight comes back\<close>
  | LoopTimer            \<comment> \<open>the 15 second timer fires while the loop is parked\<close>

definition logged :: "action \<Rightarrow> system \<Rightarrow> system" where
  "logged a s = s\<lparr>history := history s @ [(now s, a)]\<rparr>"

definition die :: "panic \<Rightarrow> system \<Rightarrow> system" where
  "die p s = s\<lparr>process := Crashed p\<rparr>"

text \<open>
  The state right after line 178: both channels made and empty, the goroutine started
  and at the top of its loop, the supervisor in front of its \<^verbatim>\<open>select\<close>.
\<close>

definition init :: system where
  "init = \<lparr>now = 0, process = Running, supervisor = SupEnter, poller = LoopQuery,
            stateChan = \<lparr>buf = [], isClosed = False\<rparr>,
            doneChan = \<lparr>buf = [], isClosed = False\<rparr>,
            history = []\<rparr>"

subsection \<open>The supervisor\<close>

text \<open>
  Evaluating a \<^verbatim>\<open>select\<close> creates its timer, so at that moment the timer case is
  never ready: the \<^verbatim>\<open>select\<close> takes the channel case when a value is buffered (or
  the channel is closed, which yields the zero value \<^verbatim>\<open>false\<close>) and parks otherwise.
  A parked \<^verbatim>\<open>select\<close> is decided by whichever comes first, a send on its channel
  (the sender hands the value over directly) or the firing of its timer.

  A send to a channel with a parked receiver hands over; otherwise it needs room in the
  buffer and blocks when there is none. A send on a closed channel panics, and so does
  closing a closed channel.
\<close>

definition waitForMesosSlaveRegistration_step :: "system \<Rightarrow> system option" where
  "waitForMesosSlaveRegistration_step s =
     (case supervisor s of
        SupEnter \<Rightarrow>
          (case buf (stateChan s) of
             v # rest \<Rightarrow>
               Some (logged (ReceivedOut v)
                 (s\<lparr>stateChan := (stateChan s)\<lparr>buf := rest\<rparr>, supervisor := SupSignal v\<rparr>))
           | [] \<Rightarrow>
               if isClosed (stateChan s)
               then Some (logged (ReceivedOut False) (s\<lparr>supervisor := SupSignal False\<rparr>))
               else Some (s\<lparr>supervisor := SupWaiting (now s + 90)\<rparr>))
      | SupWaiting due \<Rightarrow> None
      | SupSignal isRegistered \<Rightarrow>
          if isClosed (doneChan s) then Some (die SendOnClosedChannel s)
          else (case poller s of
                  LoopWaiting due \<Rightarrow>
                    Some (logged ReceivedDone (logged SentDone
                      (s\<lparr>poller := LoopStop, supervisor := SupClose isRegistered\<rparr>)))
                | _ \<Rightarrow>
                    if length (buf (doneChan s)) < chanCap
                    then Some (logged SentDone
                      (s\<lparr>doneChan := (doneChan s)\<lparr>buf := buf (doneChan s) @ [True]\<rparr>,
                         supervisor := SupClose isRegistered\<rparr>))
                    else None)
      | SupClose isRegistered \<Rightarrow>
          if isClosed (doneChan s) then Some (die CloseOfClosedChannel s)
          else (case poller s of
                  LoopWaiting due \<Rightarrow>
                    Some (logged ReceivedDone (logged ClosedDone
                      (s\<lparr>doneChan := (doneChan s)\<lparr>isClosed := True\<rparr>, poller := LoopStop,
                         supervisor := SupReturned isRegistered\<rparr>)))
                | _ \<Rightarrow>
                    Some (logged ClosedDone
                      (s\<lparr>doneChan := (doneChan s)\<lparr>isClosed := True\<rparr>,
                         supervisor := SupReturned isRegistered\<rparr>)))
      | SupReturned isRegistered \<Rightarrow> None)"

definition waitForMesosSlaveRegistration_timer :: "system \<Rightarrow> system option" where
  "waitForMesosSlaveRegistration_timer s =
     (case supervisor s of
        SupWaiting due \<Rightarrow>
          if due \<le> now s then Some (logged TimedOut (s\<lparr>supervisor := SupSignal False\<rparr>))
          else None
      | _ \<Rightarrow> None)"

subsection \<open>The polling loop\<close>

text \<open>Lines 145 to 147 and the way out of \<^verbatim>\<open>isSlaveRegistered\<close>.\<close>

definition finishTick :: "bool outcome \<Rightarrow> system \<Rightarrow> system" where
  "finishTick res s =
     (case res of
        Returned isRegistered \<Rightarrow> s\<lparr>poller := (if isRegistered = True then LoopEmit else LoopEnter)\<rparr>
      | Panicked p \<Rightarrow> die p s
      | Exited n \<Rightarrow> s\<lparr>process := ExitedWith n\<rparr>)"

definition issue :: "(string \<Rightarrow> bool) \<Rightarrow> string \<Rightarrow> loop_pc \<Rightarrow> system \<Rightarrow> system" where
  "issue requestErr url next s =
     (case newRequest requestErr url of
        None \<Rightarrow> die RequestConstructionError s
      | Some httpReq \<Rightarrow> logged (Issued httpReq) (s\<lparr>poller := next\<rparr>))"

definition asyncQueryRegistration_step ::
  "(string \<Rightarrow> bool) \<Rightarrow> args \<Rightarrow> system \<Rightarrow> system option" where
  "asyncQueryRegistration_step requestErr a s =
     (case poller s of
        LoopQuery \<Rightarrow>
          Some (issue requestErr (sprintf_url (sprintf_hostPort (mip a) (mport a)) (mapi a))
                  LoopInFlight s)
      | LoopInFlight \<Rightarrow> None
      | LoopRedirect url \<Rightarrow> Some (issue requestErr url LoopRedirectInFlight s)
      | LoopRedirectInFlight \<Rightarrow> None
      | LoopEmit \<Rightarrow>
          if isClosed (stateChan s) then Some (die SendOnClosedChannel s)
          else (case supervisor s of
                  SupWaiting due \<Rightarrow>
                    Some (logged (ReceivedOut True) (logged (SentOut True)
                      (s\<lparr>supervisor := SupSignal True, poller := LoopEnter\<rparr>)))
                | _ \<Rightarrow>
                    if length (buf (stateChan s)) < chanCap
                    then Some (logged (SentOut True)
                      (s\<lparr>stateChan := (stateChan s)\<lparr>buf := buf (stateChan s) @ [True]\<rparr>,
                         poller := LoopEnter\<rparr>))
                    else None)
      | LoopEnter \<Rightarrow>
          (case buf (doneChan s) of
             v # rest \<Rightarrow>
               Some (logged ReceivedDone
                 (s\<lparr>doneChan := (doneChan s)\<lparr>buf := rest\<rparr>, poller := LoopStop\<rparr>))
           | [] \<Rightarrow>
               if isClosed (doneChan s)
               then Some (logged ReceivedDone (s\<lparr>poller := LoopStop\<rparr>))
               else Some (s\<lparr>poller := LoopWaiting (now s + 15)\<rparr>))
      | LoopWaiting due \<Rightarrow> None
      | LoopStop \<Rightarrow>
          if isClosed (stateChan s) then Some (die CloseOfClosedChannel s)
          else (case supervisor s of
                  SupWaiting due \<Rightarrow>
                    Some (logged (ReceivedOut False) (logged ClosedOut
                      (s\<lparr>stateChan := (stateChan s)\<lparr>isClosed := True\<rparr>,
                         supervisor := SupSignal False, poller := LoopExited\<rparr>)))
                | _ \<Rightarrow>
                    Some (logged ClosedOut
                      (s\<lparr>stateChan := (stateChan s)\<lparr>isClosed := True\<rparr>, poller := LoopExited\<rparr>)))
      | LoopExited \<Rightarrow> None)"

definition asyncQueryRegistration_reply :: "args \<Rightarrow> http_reply \<Rightarrow> system \<Rightarrow> system option" where
  "asyncQueryRegistration_reply a reply s =
     (case poller s of
        LoopInFlight \<Rightarrow>
          (case readReply reply of
             Panicked p \<Rightarrow> Some (die p s)
           | Exited n \<Rightarrow> Some (s\<lparr>process := ExitedWith n\<rparr>)
           | Returned r \<Rightarrow>
               (case afterFirstQuery r (mapi a) (sip a) of
                  Redirect url \<Rightarrow> Some (s\<lparr>poller := LoopRedirect url\<rparr>)
                | Resolved res \<Rightarrow> Some (finishTick res s)))
      | LoopRedirectInFlight \<Rightarrow>
          (case readReply reply of
             Panicked p \<Rightarrow> Some (die p s)
           | Exited n \<Rightarrow> Some (s\<lparr>process := ExitedWith n\<rparr>)
           | Returned r \<Rightarrow> Some (finishTick (afterSecondQuery r (sip a)) s))
      | _ \<Rightarrow> None)"

definition asyncQueryRegistration_timer :: "system \<Rightarrow> system option" where
  "asyncQueryRegistration_timer s =
     (case poller s of
        LoopWaiting due \<Rightarrow>
          if due \<le> now s then Some (logged IntervalElapsed (s\<lparr>poller := LoopQuery\<rparr>))
          else None
      | _ \<Rightarrow> None)"

subsection \<open>Runs\<close>

definition step :: "(string \<Rightarrow> bool) \<Rightarrow> args \<Rightarrow> event \<Rightarrow> system \<Rightarrow> system option" where
  "step requestErr a e s =
     (case e of
        Advance d \<Rightarrow> Some (s\<lparr>now := now s + d\<rparr>)
      | _ \<Rightarrow>
          if process s \<noteq> Running then None
          else (case e of
                  SupStep \<Rightarrow> waitForMesosSlaveRegistration_step s
                | SupTimer \<Rightarrow> waitForMesosSlaveRegistration_timer s
                | LoopStep \<Rightarrow> asyncQueryRegistration_step requestErr a s
                | LoopReply reply \<Rightarrow> asyncQueryRegistration_reply a reply s
                | LoopTimer \<Rightarrow> asyncQueryRegistration_timer s
                | Advance d \<Rightarrow> None))"

fun run :: "(string \<Rightarrow> bool) \<Rightarrow> args \<Rightarrow> event list \<Rightarrow> system \<Rightarrow> system option" where
  "run requestErr a [] s = Some s"
| "run requestErr a (e # es) s =
     (case step requestErr a e s of
        None \<Rightarrow> None
      | Some s' \<Rightarrow> run requestErr a es s')"

text \<open>What the function has returned at the end of a run, if it has returned.\<close>

definition waitForMesosSlaveRegistration ::
  "(string \<Rightarrow> bool) \<Rightarrow> args \<Rightarrow> event list \<Rightarrow> bool option" where
  "waitForMesosSlaveRegistration requestErr a es =
     (case run requestErr a es init of
        None \<Rightarrow> None
      | Some s \<Rightarrow> (case supervisor s of SupReturned isRegistered \<Rightarrow> Some isRegistered | _ \<Rightarrow> None))"

subsection \<open>Reading a history\<close>

definition acts :: "system \<Rightarrow> action list" where
  "acts s = map snd (history s)"

fun isIssued :: "action \<Rightarrow> bool" where
  "isIssued (Issued r) = True"
| "isIssued _ = False"

text \<open>The part of a list from the first occurrence of an entry on, and the part before it.\<close>

definition since :: "action \<Rightarrow> action list \<Rightarrow> action list" where
  "since a xs = dropWhile (\<lambda>x. x \<noteq> a) xs"

definition before :: "action \<Rightarrow> action list \<Rightarrow> action list" where
  "before a xs = takeWhile (\<lambda>x. x \<noteq> a) xs"

definition queriesSince :: "action \<Rightarrow> system \<Rightarrow> nat" where
  "queriesSince a s = length (filter isIssued (since a (acts s)))"

section \<open>Invariants of a run\<close>

text \<open>
  Where each goroutine is, in the terms the invariants need: whether the supervisor has
  decided its \<^verbatim>\<open>select\<close> and with what, whether it has sent the cancellation signal,
  whether the loop has received it, and how many requests a tick that is under way can
  still make.
\<close>

fun sentDone :: "sup_pc \<Rightarrow> bool" where
  "sentDone (SupClose b) = True"
| "sentDone (SupReturned b) = True"
| "sentDone _ = False"

fun hasReturned :: "sup_pc \<Rightarrow> bool" where
  "hasReturned (SupReturned b) = True"
| "hasReturned _ = False"

fun verdict :: "sup_pc \<Rightarrow> bool option" where
  "verdict SupEnter = None"
| "verdict (SupWaiting due) = None"
| "verdict (SupSignal b) = Some b"
| "verdict (SupClose b) = Some b"
| "verdict (SupReturned b) = Some b"

fun stopped :: "loop_pc \<Rightarrow> bool" where
  "stopped LoopStop = True"
| "stopped LoopExited = True"
| "stopped _ = False"

fun parked :: "loop_pc \<Rightarrow> bool" where
  "parked (LoopWaiting due) = True"
| "parked _ = False"

fun budget :: "loop_pc \<Rightarrow> nat" where
  "budget LoopQuery = 2"
| "budget LoopInFlight = 1"
| "budget (LoopRedirect url) = 1"
| "budget _ = 0"

fun isCancel :: "action \<Rightarrow> bool" where
  "isCancel SentDone = True"
| "isCancel ClosedDone = True"
| "isCancel _ = False"

definition channels_inv :: "system \<Rightarrow> bool" where
  "channels_inv s =
     ((sentDone (supervisor s) \<longrightarrow> \<not> parked (poller s))
      \<and> (sentDone (supervisor s) \<longrightarrow> stopped (poller s) \<longrightarrow> buf (doneChan s) = [])
      \<and> (sentDone (supervisor s) \<longrightarrow> \<not> stopped (poller s) \<longrightarrow> buf (doneChan s) = [True])
      \<and> (\<not> sentDone (supervisor s) \<longrightarrow> buf (doneChan s) = [] \<and> \<not> stopped (poller s))
      \<and> isClosed (doneChan s) = hasReturned (supervisor s)
      \<and> isClosed (stateChan s) = (poller s = LoopExited)
      \<and> (\<forall>due. supervisor s = SupWaiting due \<longrightarrow> buf (stateChan s) = [] \<and> 90 \<le> due))"

text \<open>
  What the history says about the race of line 180, at each program point of the
  supervisor, and about the values that travel on the result channel.
\<close>

definition outcome_inv :: "system \<Rightarrow> bool" where
  "outcome_inv s =
     ((verdict (supervisor s) = None \<longrightarrow>
         ReceivedOut True \<notin> set (acts s) \<and> TimedOut \<notin> set (acts s))
      \<and> (\<forall>due. supervisor s = SupWaiting due \<longrightarrow> SentOut True \<notin> set (acts s))
      \<and> (verdict (supervisor s) = Some True \<longrightarrow>
           ReceivedOut True \<in> set (acts s) \<and> SentOut True \<in> set (acts s)
           \<and> TimedOut \<notin> set (acts s))
      \<and> (verdict (supervisor s) = Some False \<longrightarrow>
           TimedOut \<in> set (acts s) \<and> ReceivedOut True \<notin> set (acts s)
           \<and> SentOut True \<notin> set (before TimedOut (acts s)))
      \<and> (\<forall>t. (t, TimedOut) \<in> set (history s) \<longrightarrow> 90 \<le> t)
      \<and> False \<notin> set (buf (stateChan s))
      \<and> (buf (stateChan s) \<noteq> [] \<longrightarrow> SentOut True \<in> set (acts s))
      \<and> (supervisor s = SupEnter \<longrightarrow> buf (stateChan s) = [] \<longrightarrow>
           SentOut True \<notin> set (acts s))
      \<and> SentOut False \<notin> set (acts s)
      \<and> ReceivedOut False \<notin> set (acts s))"

text \<open>
  What the history says about the cancellation signal: who has sent and received it, and
  what the loop has done since.
\<close>

definition cancel_inv :: "system \<Rightarrow> bool" where
  "cancel_inv s =
     ((\<not> sentDone (supervisor s) \<longrightarrow>
         filter isCancel (acts s) = [] \<and> ReceivedDone \<notin> set (acts s))
      \<and> (sentDone (supervisor s) \<longrightarrow> \<not> hasReturned (supervisor s) \<longrightarrow>
           filter isCancel (acts s) = [SentDone])
      \<and> (hasReturned (supervisor s) \<longrightarrow> filter isCancel (acts s) = [SentDone, ClosedDone])
      \<and> (sentDone (supervisor s) = (SentDone \<in> set (acts s)))
      \<and> (stopped (poller s) = (ReceivedDone \<in> set (acts s)))
      \<and> ((poller s = LoopExited) = (ClosedOut \<in> set (acts s)))
      \<and> (sentDone (supervisor s) \<longrightarrow>
           length (filter isIssued (since SentDone (acts s))) + budget (poller s) \<le> 2
           \<and> IntervalElapsed \<notin> set (since SentDone (acts s)))
      \<and> (stopped (poller s) \<longrightarrow> filter isIssued (since ReceivedDone (acts s)) = []))"

definition reachable_inv :: "system \<Rightarrow> bool" where
  "reachable_inv s = (channels_inv s \<and> outcome_inv s \<and> cancel_inv s)"

section \<open>Example data\<close>

text \<open>The snapshots of the spec's scenario B, and two models of \<^verbatim>\<open>http.NewRequest\<close>.\<close>

definition exampleArgs :: args where
  "exampleArgs = \<lparr>mip = ''10.0.0.5'', mport = ''5050'', mapi = ''state'', sip = ''172.31.34.94''\<rparr>"

definition exampleSlave :: MesosSlave where
  "exampleSlave =
     \<lparr>IsActive = True, MesosPid = ''slave(1)@172.31.34.94:5051'',
      Attributes = \<lparr>Host = ''ip-172-31-34-94'', InstanceType = ''m4.large'', PublicIP = '''',
                    Rack = ''a'', PrivateIP = ''172.31.34.94''\<rparr>,
      RegisteredTime = 1458344010\<rparr>"

definition exampleLeader :: MesosState where
  "exampleLeader =
     \<lparr>ElectedTime = 1458344004, Leader = ''master@10.0.0.2:5050'',
      Pid = ''master@10.0.0.2:5050'', Slaves = [exampleSlave]\<rparr>"

definition exampleFollower :: MesosState where
  "exampleFollower =
     \<lparr>ElectedTime = 0, Leader = ''master@10.0.0.2:5050'', Pid = ''master@10.0.0.5:5050'',
      Slaves = []\<rparr>"

definition acceptAll :: "string \<Rightarrow> bool" where
  "acceptAll url = False"

definition rejectSpaces :: "string \<Rightarrow> bool" where
  "rejectSpaces url = (CHR '' '' \<in> set url)"

section \<open>Facts about the pieces\<close>

lemma scanSlaves_iff:
  "scanSlaves slaves agentIP = (\<exists>slave \<in> set slaves. PrivateIP (Attributes slave) = agentIP)"
  by (induction slaves) auto

lemma strings_Split_nonempty: "strings_Split sep s \<noteq> []"
  by (induction s) (auto split: list.splits)

lemma strings_Split_length: "length (strings_Split sep s) = Suc (count_list s sep)"
  by (induction s) (auto split: list.splits simp: strings_Split_nonempty)

lemma strings_Split_single: "sep \<notin> set s \<Longrightarrow> strings_Split sep s = [s]"
  by (induction s) auto

section \<open>Steps and invariants\<close>

lemma logged_simps [simp]:
  "now (logged a s) = now s" "process (logged a s) = process s"
  "supervisor (logged a s) = supervisor s" "poller (logged a s) = poller s"
  "stateChan (logged a s) = stateChan s" "doneChan (logged a s) = doneChan s"
  "history (logged a s) = history s @ [(now s, a)]"
  "acts (logged a s) = acts s @ [a]"
  by (simp_all add: logged_def acts_def)

lemma die_simps [simp]:
  "now (die p s) = now s" "process (die p s) = Crashed p"
  "supervisor (die p s) = supervisor s" "poller (die p s) = poller s"
  "stateChan (die p s) = stateChan s" "doneChan (die p s) = doneChan s"
  "history (die p s) = history s" "acts (die p s) = acts s"
  by (simp_all add: die_def acts_def)

lemma acts_updates [simp]:
  "acts (s\<lparr>now := n\<rparr>) = acts s" "acts (s\<lparr>process := p\<rparr>) = acts s"
  "acts (s\<lparr>supervisor := sp\<rparr>) = acts s" "acts (s\<lparr>poller := lp\<rparr>) = acts s"
  "acts (s\<lparr>stateChan := c\<rparr>) = acts s" "acts (s\<lparr>doneChan := c\<rparr>) = acts s"
  by (simp_all add: acts_def)



lemma hasReturned_sentDone [simp]: "hasReturned p \<Longrightarrow> sentDone p"
  by (cases p) auto

lemma sup_step_elim:
  assumes "waitForMesosSlaveRegistration_step s = Some s'"
  obtains
    (recv) v rest where "supervisor s = SupEnter" "buf (stateChan s) = v # rest"
      "s' = logged (ReceivedOut v) (s\<lparr>stateChan := (stateChan s)\<lparr>buf := rest\<rparr>, supervisor := SupSignal v\<rparr>)"
  | (recvClosed) "supervisor s = SupEnter" "buf (stateChan s) = []" "isClosed (stateChan s)"
      "s' = logged (ReceivedOut False) (s\<lparr>supervisor := SupSignal False\<rparr>)"
  | (park) "supervisor s = SupEnter" "buf (stateChan s) = []" "\<not> isClosed (stateChan s)"
      "s' = s\<lparr>supervisor := SupWaiting (now s + 90)\<rparr>"
  | (sendPanic) b where "supervisor s = SupSignal b" "isClosed (doneChan s)"
      "s' = die SendOnClosedChannel s"
  | (handoff) b due where "supervisor s = SupSignal b" "\<not> isClosed (doneChan s)"
      "poller s = LoopWaiting due"
      "s' = logged ReceivedDone (logged SentDone (s\<lparr>poller := LoopStop, supervisor := SupClose b\<rparr>))"
  | (send) b where "supervisor s = SupSignal b" "\<not> isClosed (doneChan s)"
      "\<not> parked (poller s)" "buf (doneChan s) = []"
      "s' = logged SentDone (s\<lparr>doneChan := (doneChan s)\<lparr>buf := [True]\<rparr>, supervisor := SupClose b\<rparr>)"
  | (closePanic) b where "supervisor s = SupClose b" "isClosed (doneChan s)"
      "s' = die CloseOfClosedChannel s"
  | (closeWake) b due where "supervisor s = SupClose b" "\<not> isClosed (doneChan s)"
      "poller s = LoopWaiting due"
      "s' = logged ReceivedDone (logged ClosedDone
             (s\<lparr>doneChan := (doneChan s)\<lparr>isClosed := True\<rparr>, poller := LoopStop,
                supervisor := SupReturned b\<rparr>))"
  | (close) b where "supervisor s = SupClose b" "\<not> isClosed (doneChan s)"
      "\<not> parked (poller s)"
      "s' = logged ClosedDone
             (s\<lparr>doneChan := (doneChan s)\<lparr>isClosed := True\<rparr>, supervisor := SupReturned b\<rparr>)"
proof (cases "supervisor s")
  case SupEnter
  then show thesis
    using assms that(1,2,3)
    by (auto simp: waitForMesosSlaveRegistration_step_def split: list.splits if_splits)
next
  case (SupWaiting due)
  then show thesis
    using assms by (simp add: waitForMesosSlaveRegistration_step_def)
next
  case (SupSignal b)
  then show thesis
    using assms that(4,5,6)
    by (cases "poller s")
       (auto simp: waitForMesosSlaveRegistration_step_def chanCap_def split: if_splits)
next
  case (SupClose b)
  then show thesis
    using assms that(7,8,9)
    by (cases "poller s")
       (auto simp: waitForMesosSlaveRegistration_step_def split: if_splits)
next
  case (SupReturned b)
  then show thesis
    using assms by (simp add: waitForMesosSlaveRegistration_step_def)
qed

lemma sup_timer_elim:
  assumes "waitForMesosSlaveRegistration_timer s = Some s'"
  obtains due where "supervisor s = SupWaiting due" "due \<le> now s"
    "s' = logged TimedOut (s\<lparr>supervisor := SupSignal False\<rparr>)"
  using assms
  by (cases "supervisor s")
     (auto simp: waitForMesosSlaveRegistration_timer_def split: if_splits)

lemma loop_timer_elim:
  assumes "asyncQueryRegistration_timer s = Some s'"
  obtains due where "poller s = LoopWaiting due" "due \<le> now s"
    "s' = logged IntervalElapsed (s\<lparr>poller := LoopQuery\<rparr>)"
  using assms
  by (cases "poller s")
     (auto simp: asyncQueryRegistration_timer_def split: if_splits)

lemma loop_step_elim:
  assumes "asyncQueryRegistration_step requestErr a s = Some s'"
  obtains
    (crash) p where "s' = die p s"
  | (query) httpReq where "poller s = LoopQuery"
      "s' = logged (Issued httpReq) (s\<lparr>poller := LoopInFlight\<rparr>)"
  | (redirect) httpReq url where "poller s = LoopRedirect url"
      "s' = logged (Issued httpReq) (s\<lparr>poller := LoopRedirectInFlight\<rparr>)"
  | (handoff) due where "poller s = LoopEmit" "\<not> isClosed (stateChan s)"
      "supervisor s = SupWaiting due"
      "s' = logged (ReceivedOut True) (logged (SentOut True)
             (s\<lparr>supervisor := SupSignal True, poller := LoopEnter\<rparr>))"
  | (emit) "poller s = LoopEmit" "\<not> isClosed (stateChan s)" "verdict (supervisor s) \<noteq> None \<or> supervisor s = SupEnter"
      "buf (stateChan s) = []"
      "s' = logged (SentOut True)
             (s\<lparr>stateChan := (stateChan s)\<lparr>buf := [True]\<rparr>, poller := LoopEnter\<rparr>)"
  | (recv) v rest where "poller s = LoopEnter" "buf (doneChan s) = v # rest"
      "s' = logged ReceivedDone (s\<lparr>doneChan := (doneChan s)\<lparr>buf := rest\<rparr>, poller := LoopStop\<rparr>)"
  | (recvClosed) "poller s = LoopEnter" "buf (doneChan s) = []" "isClosed (doneChan s)"
      "s' = logged ReceivedDone (s\<lparr>poller := LoopStop\<rparr>)"
  | (park) "poller s = LoopEnter" "buf (doneChan s) = []" "\<not> isClosed (doneChan s)"
      "s' = s\<lparr>poller := LoopWaiting (now s + 15)\<rparr>"
  | (closeWake) due where "poller s = LoopStop" "\<not> isClosed (stateChan s)"
      "supervisor s = SupWaiting due"
      "s' = logged (ReceivedOut False) (logged ClosedOut
             (s\<lparr>stateChan := (stateChan s)\<lparr>isClosed := True\<rparr>,
                supervisor := SupSignal False, poller := LoopExited\<rparr>))"
  | (close) "poller s = LoopStop" "\<not> isClosed (stateChan s)"
      "verdict (supervisor s) \<noteq> None \<or> supervisor s = SupEnter"
      "s' = logged ClosedOut
             (s\<lparr>stateChan := (stateChan s)\<lparr>isClosed := True\<rparr>, poller := LoopExited\<rparr>)"
proof (cases "poller s")
  case LoopQuery
  then show thesis
    using assms that(1,2)
    by (auto simp: asyncQueryRegistration_step_def issue_def split: option.splits)
next
  case LoopInFlight
  then show thesis
    using assms by (simp add: asyncQueryRegistration_step_def)
next
  case (LoopRedirect url)
  then show thesis
    using assms that(1,3)
    by (auto simp: asyncQueryRegistration_step_def issue_def split: option.splits)
next
  case LoopRedirectInFlight
  then show thesis
    using assms by (simp add: asyncQueryRegistration_step_def)
next
  case LoopEmit
  then show thesis
    using assms that(1,4,5)
    by (cases "supervisor s")
       (auto simp: asyncQueryRegistration_step_def chanCap_def split: if_splits)
next
  case LoopEnter
  then show thesis
    using assms that(6,7,8)
    by (auto simp: asyncQueryRegistration_step_def split: list.splits if_splits)
next
  case (LoopWaiting due)
  then show thesis
    using assms by (simp add: asyncQueryRegistration_step_def)
next
  case LoopStop
  then show thesis
    using assms that(1,9,10)
    by (cases "supervisor s")
       (auto simp: asyncQueryRegistration_step_def split: if_splits)
next
  case LoopExited
  then show thesis
    using assms by (simp add: asyncQueryRegistration_step_def)
qed

lemma loop_reply_elim:
  assumes "asyncQueryRegistration_reply a reply s = Some s'"
  obtains
    (crash) p where "s' = die p s"
  | (exit) n where "s' = s\<lparr>process := ExitedWith n\<rparr>"
  | (redirect) url where "poller s = LoopInFlight" "s' = s\<lparr>poller := LoopRedirect url\<rparr>"
  | (match1) "poller s = LoopInFlight" "s' = s\<lparr>poller := LoopEmit\<rparr>"
  | (match2) "poller s = LoopRedirectInFlight" "s' = s\<lparr>poller := LoopEmit\<rparr>"
  | (nomatch1) "poller s = LoopInFlight" "s' = s\<lparr>poller := LoopEnter\<rparr>"
  | (nomatch2) "poller s = LoopRedirectInFlight" "s' = s\<lparr>poller := LoopEnter\<rparr>"
proof (cases "poller s")
  case LoopInFlight
  then show thesis
    using assms that(1,2,3,4,6)
    by (auto simp: asyncQueryRegistration_reply_def finishTick_def
        split: outcome.splits resolution.splits if_splits)
next
  case LoopRedirectInFlight
  then show thesis
    using assms that(1,2,5,7)
    by (auto simp: asyncQueryRegistration_reply_def finishTick_def
        split: outcome.splits if_splits)
qed (use assms in \<open>simp_all add: asyncQueryRegistration_reply_def\<close>)

lemma step_elim:
  assumes "step requestErr a e s = Some s'"
  obtains
    (advance) d where "e = Advance d" "s' = s\<lparr>now := now s + d\<rparr>"
  | (supStep) "e = SupStep" "process s = Running" "waitForMesosSlaveRegistration_step s = Some s'"
  | (supTimer) "e = SupTimer" "process s = Running" "waitForMesosSlaveRegistration_timer s = Some s'"
  | (loopStep) "e = LoopStep" "process s = Running"
      "asyncQueryRegistration_step requestErr a s = Some s'"
  | (loopReply) reply where "e = LoopReply reply" "process s = Running"
      "asyncQueryRegistration_reply a reply s = Some s'"
  | (loopTimer) "e = LoopTimer" "process s = Running" "asyncQueryRegistration_timer s = Some s'"
  using assms by (cases e) (auto simp: step_def split: if_splits)

lemma run_invariant:
  assumes "\<And>s e s'. P s \<Longrightarrow> step requestErr a e s = Some s' \<Longrightarrow> P s'"
  shows "P s0 \<Longrightarrow> run requestErr a es s0 = Some s \<Longrightarrow> P s"
  by (induction es arbitrary: s0) (auto split: option.splits intro: assms)

lemma budget_le [simp]: "budget p \<le> 2"
  by (cases p) auto

lemma since_simps [simp]:
  "since a [] = []"
  "since a (x # xs) = (if x = a then x # xs else since a xs)"
  by (simp_all add: since_def)

lemma before_simps [simp]:
  "before a [] = []"
  "before a (x # xs) = (if x = a then [] else x # before a xs)"
  by (simp_all add: before_def)

lemma since_append:
  "since a (xs @ ys) = (if a \<in> set xs then since a xs @ ys else since a ys)"
  by (induction xs) auto

lemma before_append:
  "before a (xs @ ys) = (if a \<in> set xs then before a xs else xs @ before a ys)"
  by (induction xs) auto


lemma channels_step:
  assumes "channels_inv s" and "step requestErr a e s = Some s'"
  shows "channels_inv s'"
  using assms(2)
proof (cases rule: step_elim)
  case (advance d)
  with assms(1) show ?thesis by (simp add: channels_inv_def)
next
  case supStep
  from supStep(3) assms(1) show ?thesis
    by (cases rule: sup_step_elim) (auto simp: channels_inv_def)
next
  case supTimer
  from supTimer(3) assms(1) show ?thesis
    by (cases rule: sup_timer_elim) (auto simp: channels_inv_def)
next
  case loopStep
  from loopStep(3) assms(1) show ?thesis
    by (cases rule: loop_step_elim) (auto simp: channels_inv_def)
next
  case (loopReply reply)
  from loopReply(3) assms(1) show ?thesis
    by (cases rule: loop_reply_elim) (auto simp: channels_inv_def)
next
  case loopTimer
  from loopTimer(3) assms(1) show ?thesis
    by (cases rule: loop_timer_elim) (auto simp: channels_inv_def)
qed

lemma outcome_step:
  assumes "outcome_inv s" and "channels_inv s" and "step requestErr a e s = Some s'"
  shows "outcome_inv s'"
  using assms(3)
proof (cases rule: step_elim)
  case (advance d)
  with assms(1) show ?thesis by (auto simp: outcome_inv_def)
next
  case supStep
  from supStep(3) assms(1,2) show ?thesis
    by (cases rule: sup_step_elim) (auto simp: outcome_inv_def channels_inv_def before_append)
next
  case supTimer
  from supTimer(3) assms(1,2) show ?thesis
    by (cases rule: sup_timer_elim) (auto simp: outcome_inv_def channels_inv_def before_append)
next
  case loopStep
  from loopStep(3) assms(1,2) show ?thesis
    by (cases rule: loop_step_elim) (auto simp: outcome_inv_def channels_inv_def before_append)
next
  case (loopReply reply)
  from loopReply(3) assms(1) show ?thesis
    by (cases rule: loop_reply_elim) (auto simp: outcome_inv_def)
next
  case loopTimer
  from loopTimer(3) assms(1) show ?thesis
    by (cases rule: loop_timer_elim) (auto simp: outcome_inv_def before_append)
qed

lemma cancel_step:
  assumes "cancel_inv s" and "channels_inv s" and "step requestErr a e s = Some s'"
  shows "cancel_inv s'"
  using assms(3)
proof (cases rule: step_elim)
  case (advance d)
  with assms(1) show ?thesis by (auto simp: cancel_inv_def)
next
  case supStep
  from supStep(3) assms(1,2) show ?thesis
    by (cases rule: sup_step_elim) (auto simp: cancel_inv_def channels_inv_def since_append)
next
  case supTimer
  from supTimer(3) assms(1,2) show ?thesis
    by (cases rule: sup_timer_elim) (auto simp: cancel_inv_def channels_inv_def since_append)
next
  case loopStep
  from loopStep(3) assms(1,2) show ?thesis
    by (cases rule: loop_step_elim) (auto simp: cancel_inv_def channels_inv_def since_append)
next
  case (loopReply reply)
  from loopReply(3) assms(1,2) show ?thesis
    by (cases rule: loop_reply_elim) (auto simp: cancel_inv_def channels_inv_def)
next
  case loopTimer
  from loopTimer(3) assms(1,2) show ?thesis
    by (cases rule: loop_timer_elim) (auto simp: cancel_inv_def channels_inv_def since_append)
qed



lemma reachable_init: "reachable_inv init"
  by (simp add: reachable_inv_def channels_inv_def outcome_inv_def cancel_inv_def init_def
      acts_def)

lemma reachable_step:
  "reachable_inv s \<Longrightarrow> step requestErr a e s = Some s' \<Longrightarrow> reachable_inv s'"
  unfolding reachable_inv_def
  using channels_step outcome_step cancel_step by blast

lemma reachable_run: "run requestErr a es init = Some s \<Longrightarrow> reachable_inv s"
  using run_invariant[where P = reachable_inv and ?s0.0 = init] reachable_step reachable_init
  by blast

text \<open>A process that has crashed or exited takes no step: only time passes.\<close>

lemma dead_process_stays:
  "process s \<noteq> Running \<Longrightarrow> run requestErr a es s = Some s' \<Longrightarrow>
     process s' = process s \<and> supervisor s' = supervisor s \<and> poller s' = poller s"
proof (induction es arbitrary: s)
  case Nil
  then show ?case by simp
next
  case (Cons e es)
  from Cons.prems obtain s1 where st: "step requestErr a e s = Some s1"
    and r: "run requestErr a es s1 = Some s'"
    by (auto split: option.splits)
  from st Cons.prems(1)
  have "process s1 = process s \<and> supervisor s1 = supervisor s \<and> poller s1 = poller s"
    by (cases e) (auto simp: step_def)
  with Cons.IH[of s1] r Cons.prems(1) show ?case by simp
qed

lemma sentDone_cases: "sentDone p \<Longrightarrow> (\<exists>b. p = SupClose b) \<or> (\<exists>b. p = SupReturned b)"
  by (cases p) auto

section \<open>The claims about one tick\<close>

lemmas tick_defs = isSlaveRegistered_def queryMesosState_def newRequest_def readReply_def
  afterFirstQuery_def afterSecondQuery_def checkSlaves_def sprintf_url_def sprintf_hostPort_def

lemmas run_defs = step_def waitForMesosSlaveRegistration_step_def
  waitForMesosSlaveRegistration_timer_def asyncQueryRegistration_step_def
  asyncQueryRegistration_reply_def asyncQueryRegistration_timer_def finishTick_def issue_def
  logged_def die_def init_def chanCap_def waitForMesosSlaveRegistration_def

lemmas example_defs = exampleArgs_def exampleSlave_def exampleLeader_def exampleFollower_def
  acceptAll_def rejectSpaces_def


lemma strings_Split_two:
  "sep \<in> set s \<Longrightarrow> \<exists>p h rest. strings_Split sep s = p # h # rest"
  by (induction s) (auto split: list.splits simp: strings_Split_nonempty neq_Nil_conv)


lemma queryMesosState_result:
  "fst (queryMesosState requestErr url reply) =
     (if requestErr url then Panicked RequestConstructionError else readReply reply)"
  by (simp add: queryMesosState_def newRequest_def)

lemma isSlaveRegistered_unfold:
  "\<not> requestErr (sprintf_url hp ep) \<Longrightarrow>
   isSlaveRegistered requestErr hp ep ip (Decoded st) reply2 =
     (case afterFirstQuery (Some st, None) ep ip of
        Resolved res \<Rightarrow> (res, [\<lparr>verb = ''POST'', target = sprintf_url hp ep, payload = ''''\<rparr>])
      | Redirect url \<Rightarrow>
          (if requestErr url
           then (Panicked RequestConstructionError,
                 [\<lparr>verb = ''POST'', target = sprintf_url hp ep, payload = ''''\<rparr>])
           else (case readReply reply2 of
                   Panicked p \<Rightarrow> Panicked p
                 | Exited n \<Rightarrow> Exited n
                 | Returned r2 \<Rightarrow> afterSecondQuery r2 ip,
                 [\<lparr>verb = ''POST'', target = sprintf_url hp ep, payload = ''''\<rparr>,
                  \<lparr>verb = ''POST'', target = url, payload = ''''\<rparr>])))"
  by (simp add: isSlaveRegistered_def queryMesosState_def newRequest_def readReply_def
      split: resolution.splits outcome.splits http_reply.splits)



text \<open>
  Claim C7. The scan of \<^verbatim>\<open>isSlaveRegistered\<close> (lines 128 to 133) returns true exactly
  when some slave of the snapshot it runs on has \<^verbatim>\<open>Attributes.PrivateIP\<close> equal, byte
  for byte, to the agent IP, and false on an empty (or absent) list of slaves. The snapshot
  it runs on is the reply to the second query when there was one, and the reply to the
  first otherwise.
\<close>

theorem scan_true_iff_some_privateIP_equal: 
  "checkSlaves (Some st) agentIP =
     Returned (\<exists>slave \<in> set (Slaves st). PrivateIP (Attributes slave) = agentIP)
   \<and> afterSecondQuery (Some st, err) agentIP =
     Returned (\<exists>slave \<in> set (Slaves st). PrivateIP (Attributes slave) = agentIP)
   \<and> (\<not> (ElectedTime st = 0 \<and> Leader st \<noteq> Pid st) \<longrightarrow>
        afterFirstQuery (Some st, None) ep agentIP =
          Resolved (Returned (\<exists>slave \<in> set (Slaves st). PrivateIP (Attributes slave) = agentIP)))
   \<and> (Slaves st = [] \<longrightarrow> checkSlaves (Some st) agentIP = Returned False)"
  by (auto simp: checkSlaves_def afterSecondQuery_def afterFirstQuery_def scanSlaves_iff)

theorem scan_true_iff_some_privateIP_equal_witness:
  "checkSlaves (Some exampleLeader) ''172.31.34.94'' = Returned True
   \<and> checkSlaves (Some exampleLeader) ''172.31.34.9'' = Returned False
   \<and> checkSlaves (Some (exampleLeader\<lparr>Slaves := [exampleSlave\<lparr>Attributes := (Attributes exampleSlave)\<lparr>PrivateIP := ''fe80::a''\<rparr>\<rparr>]\<rparr>)) ''FE80::A'' = Returned False
   \<and> checkSlaves (Some exampleFollower) ''172.31.34.94'' = Returned False"
  using scan_true_iff_some_privateIP_equal [of exampleLeader "''172.31.34.94''" None "''state''"]
    scan_true_iff_some_privateIP_equal [of exampleLeader "''172.31.34.9''" None "''state''"]
    scan_true_iff_some_privateIP_equal [of "exampleLeader\<lparr>Slaves := [exampleSlave\<lparr>Attributes := (Attributes exampleSlave)\<lparr>PrivateIP := ''fe80::a''\<rparr>\<rparr>]\<rparr>" "''FE80::A''" None "''state''"]
    scan_true_iff_some_privateIP_equal [of exampleFollower "''172.31.34.94''" None "''state''"]
  by (simp add: example_defs)










text \<open>
  Claim C4. The code does not do what the claim says. For a first snapshot that needs the
  redirect and whose leader string has no \<^verbatim>\<open>@\<close>, \<^verbatim>\<open>strings.Split\<close> returns one
  piece and the index \<^verbatim>\<open>[1]\<close> of line 119 panics: the tick is not a non-match, and the
  process is over.
\<close>

theorem leader_without_at_panics:
  assumes "\<not> requestErr (sprintf_url hp ep)"
    and "ElectedTime st = 0" and "Leader st \<noteq> Pid st" and "CHR ''@'' \<notin> set (Leader st)"
  shows "isSlaveRegistered requestErr hp ep ip (Decoded st) reply2 =
           (Panicked IndexOutOfRange,
            [\<lparr>verb = ''POST'', target = sprintf_url hp ep, payload = ''''\<rparr>])"
  using assms by (simp add: isSlaveRegistered_unfold afterFirstQuery_def strings_Split_single)

theorem leader_without_at_panics_witness:
  "isSlaveRegistered acceptAll ''10.0.0.5:5050'' ''state'' ''172.31.34.94''
       (Decoded (exampleFollower\<lparr>Leader := ''master''\<rparr>)) (Decoded exampleLeader) =
     (Panicked IndexOutOfRange,
      [\<lparr>verb = ''POST'', target = ''http://10.0.0.5:5050/state'', payload = ''''\<rparr>])
   \<and> map_option process (run acceptAll exampleArgs
        [SupStep, LoopStep, LoopReply (Decoded (exampleFollower\<lparr>Leader := ''master''\<rparr>))] init)
       = Some (Crashed IndexOutOfRange)"
  using leader_without_at_panics [where requestErr = acceptAll and hp = "''10.0.0.5:5050''" and ep = "''state''"
      and st = "exampleFollower\<lparr>Leader := ''master''\<rparr>" and ip = "''172.31.34.94''"
      and ?reply2.0 = "Decoded exampleLeader"]
  by (simp add: tick_defs example_defs run_defs)

text \<open>
  Claim C8. The code does not do what the claim says. When the reply to the second query
  does not decode, \<^verbatim>\<open>queryMesosState\<close> returns nil and an error, line 122 drops the
  error, and the scan of line 128 dereferences the nil pointer.
\<close>

theorem undecodable_redirect_reply_dereferences_nil:
  assumes "\<not> requestErr (sprintf_url hp ep)"
    and "ElectedTime st = 0" and "Leader st \<noteq> Pid st" and "CHR ''@'' \<in> set (Leader st)"
    and "\<not> requestErr (sprintf_url (strings_Split CHR ''@'' (Leader st) ! 1) ep)"
  shows "fst (isSlaveRegistered requestErr hp ep ip (Decoded st) Undecodable) =
           Panicked NilDereference"
  using assms strings_Split_two[of "CHR ''@''" "Leader st"]
  by (auto simp: isSlaveRegistered_unfold afterFirstQuery_def afterSecondQuery_def
      checkSlaves_def readReply_def split: list.splits)

theorem undecodable_redirect_reply_dereferences_nil_witness:
  "fst (isSlaveRegistered acceptAll ''10.0.0.5:5050'' ''state'' ''172.31.34.94''
          (Decoded exampleFollower) Undecodable) = Panicked NilDereference
   \<and> map_option process (run acceptAll exampleArgs
        [SupStep, LoopStep, LoopReply (Decoded exampleFollower), LoopStep, LoopReply Undecodable]
        init) = Some (Crashed NilDereference)"
  using undecodable_redirect_reply_dereferences_nil [where requestErr = acceptAll and hp = "''10.0.0.5:5050''" and ep = "''state''"
      and st = exampleFollower and ip = "''172.31.34.94''"]
  by (simp add: tick_defs example_defs run_defs)

section \<open>The claims about the two goroutines\<close>






text \<open>
  Claim C6, amended. Once the cancellation signal has been sent, the loop never waits out
  another interval: no 15 second timer fires for it any more, the tick under way makes at
  most two more requests, and the \<^verbatim>\<open>select\<close> that follows the tick takes the signal,
  after which the loop closes the output channel and makes no request. While a request is
  in flight the loop takes no step of its own. No bound in seconds holds.
\<close>

theorem after_cancellation_only_the_tick_under_way:
  assumes "run requestErr a es init = Some s" and "SentDone \<in> set (acts s)"
  shows "(\<forall>due. poller s \<noteq> LoopWaiting due)
       \<and> IntervalElapsed \<notin> set (since SentDone (acts s))
       \<and> queriesSince SentDone s \<le> 2
       \<and> (ReceivedDone \<in> set (acts s) \<longrightarrow> queriesSince ReceivedDone s = 0)
       \<and> (poller s = LoopEnter \<and> process s = Running \<longrightarrow>
            (\<exists>s'. step requestErr a LoopStep s = Some s' \<and> poller s' = LoopStop
                   \<and> ReceivedDone \<in> set (acts s')))
       \<and> (poller s = LoopStop \<and> process s = Running \<longrightarrow>
            (\<exists>s'. step requestErr a LoopStep s = Some s' \<and> poller s' = LoopExited
                   \<and> isClosed (stateChan s')))
       \<and> (poller s = LoopInFlight \<or> poller s = LoopRedirectInFlight \<longrightarrow>
            step requestErr a LoopStep s = None \<and> step requestErr a LoopTimer s = None)"
proof -
  from reachable_run[OF assms(1)] have ch: "channels_inv s" and ca: "cancel_inv s"
    by (simp_all add: reachable_inv_def)
  from ca assms(2) have sd: "sentDone (supervisor s)" by (simp add: cancel_inv_def)
  have 1: "\<forall>due. poller s \<noteq> LoopWaiting due"
    using sd ch by (auto simp: channels_inv_def)
  have 2: "IntervalElapsed \<notin> set (since SentDone (acts s))" "queriesSince SentDone s \<le> 2"
    using sd ca by (simp_all add: cancel_inv_def queriesSince_def)
  have 3: "queriesSince ReceivedDone s = 0" if "ReceivedDone \<in> set (acts s)"
    using that ca by (simp add: cancel_inv_def queriesSince_def)
  have 4: "\<exists>s'. step requestErr a LoopStep s = Some s' \<and> poller s' = LoopStop
                   \<and> ReceivedDone \<in> set (acts s')"
    if "poller s = LoopEnter" "process s = Running"
    using that sd ch
    by (simp add: step_def asyncQueryRegistration_step_def channels_inv_def)
  have 5: "\<exists>s'. step requestErr a LoopStep s = Some s' \<and> poller s' = LoopExited
                   \<and> isClosed (stateChan s')"
    if "poller s = LoopStop" "process s = Running"
    using that ch
    by (cases "supervisor s")
       (simp_all add: step_def asyncQueryRegistration_step_def channels_inv_def)
  have 6: "step requestErr a LoopStep s = None \<and> step requestErr a LoopTimer s = None"
    if "poller s = LoopInFlight \<or> poller s = LoopRedirectInFlight"
    using that
    by (auto simp: step_def asyncQueryRegistration_step_def asyncQueryRegistration_timer_def)
  from 1 2 3 4 5 6 show ?thesis by blast
qed

theorem after_cancellation_only_the_tick_under_way_witness:
  "\<exists>s. run acceptAll exampleArgs
        [SupStep, LoopStep, LoopReply (Decoded exampleFollower), LoopStep,
         LoopReply (Decoded (exampleLeader\<lparr>Slaves := []\<rparr>)), LoopStep, Advance 90, LoopTimer,
         SupTimer, SupStep, LoopStep, LoopReply (Decoded exampleFollower), LoopStep,
         LoopReply (Decoded exampleLeader), LoopStep, LoopStep, LoopStep] init = Some s
      \<and> SentDone \<in> set (acts s) \<and> queriesSince SentDone s = 2
      \<and> IntervalElapsed \<notin> set (since SentDone (acts s))
      \<and> queriesSince ReceivedDone s = 0 \<and> isClosed (stateChan s)"
proof -
  obtain s where r: "run acceptAll exampleArgs
        [SupStep, LoopStep, LoopReply (Decoded exampleFollower), LoopStep,
         LoopReply (Decoded (exampleLeader\<lparr>Slaves := []\<rparr>)), LoopStep, Advance 90, LoopTimer,
         SupTimer, SupStep, LoopStep, LoopReply (Decoded exampleFollower), LoopStep,
         LoopReply (Decoded exampleLeader), LoopStep, LoopStep, LoopStep] init = Some s"
    and a: "acts s =
      [Issued \<lparr>verb = ''POST'', target = ''http://10.0.0.5:5050/state'', payload = ''''\<rparr>,
       Issued \<lparr>verb = ''POST'', target = ''http://10.0.0.2:5050/state'', payload = ''''\<rparr>,
       IntervalElapsed, TimedOut, SentDone,
       Issued \<lparr>verb = ''POST'', target = ''http://10.0.0.5:5050/state'', payload = ''''\<rparr>,
       Issued \<lparr>verb = ''POST'', target = ''http://10.0.0.2:5050/state'', payload = ''''\<rparr>,
       SentOut True, ReceivedDone, ClosedOut]"
    and c: "isClosed (stateChan s)"
    by (auto simp: run_defs tick_defs example_defs acts_def)
  from a have sd: "SentDone \<in> set (acts s)" by simp
  from after_cancellation_only_the_tick_under_way[OF r sd] a c r
  show ?thesis by (auto simp: queriesSince_def)
qed

text \<open>
  Claim C6 as stated fails. The first request is in flight when the supervisor times out
  and sends the signal at second 90; its reply, a follower's snapshot, arrives at second
  110; the redirected request is issued then, 20 seconds after the signal, and the output
  channel is closed after that.
\<close>

theorem redirect_issued_after_cancellation:
  "map_option history
     (run acceptAll exampleArgs
        [SupStep, LoopStep, Advance 90, SupTimer, SupStep, SupStep, Advance 20,
         LoopReply (Decoded exampleFollower), LoopStep, LoopReply (Decoded exampleLeader),
         LoopStep, LoopStep, LoopStep] init)
     = Some [(0, Issued \<lparr>verb = ''POST'', target = ''http://10.0.0.5:5050/state'', payload = ''''\<rparr>),
             (90, TimedOut), (90, SentDone), (90, ClosedDone),
             (110, Issued \<lparr>verb = ''POST'', target = ''http://10.0.0.2:5050/state'', payload = ''''\<rparr>),
             (110, SentOut True), (110, ReceivedDone), (110, ClosedOut)]"
  by (simp add: run_defs tick_defs example_defs)

text \<open>
  Claim C5, amended. After a match the loop sends \<^verbatim>\<open>true\<close> on the result channel,
  and the first send of a run is possible at once; it then goes to the same
  \<^verbatim>\<open>select\<close> as after a tick without a match. The output channel is closed only by
  the loop, only after it has received the cancellation signal, and the loop is over then.
\<close>

theorem match_emits_then_waits_for_cancellation:
  assumes "run requestErr a es init = Some s"
  shows "(poller s = LoopEmit \<and> process s = Running \<and> SentOut True \<notin> set (acts s) \<longrightarrow>
            (\<exists>s'. step requestErr a LoopStep s = Some s' \<and> process s' = Running
                   \<and> poller s' = LoopEnter \<and> SentOut True \<in> set (acts s')
                   \<and> \<not> isClosed (stateChan s')))
       \<and> SentOut False \<notin> set (acts s)
       \<and> (isClosed (stateChan s) = (ClosedOut \<in> set (acts s)))
       \<and> (ClosedOut \<in> set (acts s) \<longrightarrow>
            ReceivedDone \<in> set (acts s) \<and> SentDone \<in> set (acts s) \<and> poller s = LoopExited)"
proof -
  from reachable_run[OF assms] have ch: "channels_inv s" and ca: "cancel_inv s"
    and ou: "outcome_inv s"
    by (simp_all add: reachable_inv_def)
  have 1: "\<exists>s'. step requestErr a LoopStep s = Some s' \<and> process s' = Running
                   \<and> poller s' = LoopEnter \<and> SentOut True \<in> set (acts s')
                   \<and> \<not> isClosed (stateChan s')"
    if "poller s = LoopEmit" "process s = Running" "SentOut True \<notin> set (acts s)"
  proof -
    from that ch ou have "\<not> isClosed (stateChan s)" "buf (stateChan s) = []"
      by (auto simp: channels_inv_def outcome_inv_def)
    with that show ?thesis
      by (cases "supervisor s")
         (simp_all add: step_def asyncQueryRegistration_step_def chanCap_def)
  qed
  have 2: "SentOut False \<notin> set (acts s)"
    using ou by (simp add: outcome_inv_def)
  have 3: "isClosed (stateChan s) = (ClosedOut \<in> set (acts s))"
    using ch ca by (simp add: channels_inv_def cancel_inv_def)
  have 4: "ReceivedDone \<in> set (acts s) \<and> SentDone \<in> set (acts s) \<and> poller s = LoopExited"
    if "ClosedOut \<in> set (acts s)"
    using that ch ca by (auto simp: channels_inv_def cancel_inv_def)
  from 1 2 3 4 show ?thesis by blast
qed

theorem match_emits_then_waits_for_cancellation_witness:
  "\<exists>s s'. run acceptAll exampleArgs [SupStep, LoopStep, LoopReply (Decoded exampleLeader)] init
             = Some s
      \<and> poller s = LoopEmit
      \<and> step acceptAll exampleArgs LoopStep s = Some s' \<and> poller s' = LoopEnter
      \<and> SentOut True \<in> set (acts s') \<and> \<not> isClosed (stateChan s')"
proof -
  obtain s where r: "run acceptAll exampleArgs
      [SupStep, LoopStep, LoopReply (Decoded exampleLeader)] init = Some s"
    and p: "poller s = LoopEmit" "process s = Running" "SentOut True \<notin> set (acts s)"
    by (auto simp: run_defs tick_defs example_defs acts_def)
  from match_emits_then_waits_for_cancellation[OF r] p r show ?thesis by blast
qed

text \<open>
  Claim C5 as stated fails. The tick finds a match and the loop sends \<^verbatim>\<open>true\<close>, which
  the supervisor takes; the supervisor has not yet run line 186 when the loop's 15 seconds
  are over, and the loop queries again. The output channel is not closed.
\<close>

theorem loop_queries_again_after_match:
  "map_option (\<lambda>s. (history s, poller s, isClosed (stateChan s)))
     (run acceptAll exampleArgs
        [SupStep, LoopStep, LoopReply (Decoded exampleLeader), LoopStep, LoopStep, Advance 15,
         LoopTimer, LoopStep] init)
     = Some ([(0, Issued \<lparr>verb = ''POST'', target = ''http://10.0.0.5:5050/state'', payload = ''''\<rparr>),
              (0, SentOut True), (0, ReceivedOut True), (15, IntervalElapsed),
              (15, Issued \<lparr>verb = ''POST'', target = ''http://10.0.0.5:5050/state'', payload = ''''\<rparr>)],
             LoopInFlight, False)"
  by (simp add: run_defs tick_defs example_defs)

end
